theory Spec2Isabelle
  imports Main
begin

section \<open>The record store\<close>

text \<open>
  The services of \<^verbatim>\<open>services/supabase_service.py\<close> talk to three tables through a client
  whose every statement ends in \<^verbatim>\<open>.execute()\<close>. A statement either runs and returns the
  rows it touched, or returns an empty \<^verbatim>\<open>data\<close> list without writing, or raises. Which of
  the three happens is decided outside the program, so the store carries a list of
  outcomes, one consumed by each statement; an exhausted list means the store answers.
  Instants are integers (seconds), identifiers are numbers handed out by the store.
\<close>

datatype outcome = Done | NoRows | Raise

datatype exn = StoreError | MaxRetries | ValueError | KeyError | TypeError | AttributeError
  | IndexError | ExternalError | JSONDecodeError

datatype appt_status = Confirmed | Cancelled

record slot =
  slot_id :: nat
  slot_start_time :: int
  slot_end_time :: int
  is_booked :: bool

record appointment =
  appt_id :: nat
  appt_patient_id :: nat
  availability_id :: nat
  appointment_time :: int
  status :: appt_status

record patient =
  pat_id :: nat
  phone_number :: string
  full_name :: "string option"
  age :: "int option"
  gender :: "string option"
  email :: "string option"
  pat_notes :: "string option"
  onboarding_step :: "string option"
  onboarding_completed :: bool

record world =
  client_ok :: bool
  pending :: "outcome list"
  next_id :: nat
  patients :: "patient list"
  slots :: "slot list"
  appointments :: "appointment list"

definition next_outcome :: "world \<Rightarrow> outcome \<times> world" where
  "next_outcome w =
     (case pending w of [] \<Rightarrow> (Done, w) | x # xs \<Rightarrow> (x, w\<lparr>pending := xs\<rparr>))"

definition select_rows ::
  "(world \<Rightarrow> 'r list) \<Rightarrow> ('r \<Rightarrow> bool) \<Rightarrow> world \<Rightarrow> (exn + 'r list) \<times> world" where
  "select_rows tbl P w =
     (case next_outcome w of
        (Raise, w') \<Rightarrow> (Inl StoreError, w')
      | (NoRows, w') \<Rightarrow> (Inr [], w')
      | (Done, w') \<Rightarrow> (Inr (filter P (tbl w')), w'))"

text \<open>
  An update carries its row predicate: matching rows are rewritten and returned in one
  statement, there is no read before the write.
\<close>

definition update_rows ::
  "(world \<Rightarrow> 'r list) \<Rightarrow> ('r list \<Rightarrow> world \<Rightarrow> world) \<Rightarrow> ('r \<Rightarrow> bool) \<Rightarrow> ('r \<Rightarrow> 'r)
     \<Rightarrow> world \<Rightarrow> (exn + 'r list) \<times> world" where
  "update_rows tbl put P f w =
     (case next_outcome w of
        (Raise, w') \<Rightarrow> (Inl StoreError, w')
      | (NoRows, w') \<Rightarrow> (Inr [], w')
      | (Done, w') \<Rightarrow>
          (Inr (map f (filter P (tbl w'))),
           put (map (\<lambda>r. if P r then f r else r) (tbl w')) w'))"

definition insert_row ::
  "(world \<Rightarrow> 'r list) \<Rightarrow> ('r list \<Rightarrow> world \<Rightarrow> world) \<Rightarrow> (nat \<Rightarrow> 'r)
     \<Rightarrow> world \<Rightarrow> (exn + 'r list) \<times> world" where
  "insert_row tbl put mk w =
     (case next_outcome w of
        (Raise, w') \<Rightarrow> (Inl StoreError, w')
      | (NoRows, w') \<Rightarrow> (Inr [], w')
      | (Done, w') \<Rightarrow>
          (let r = mk (next_id w')
           in (Inr [r], put (tbl w' @ [r]) (w'\<lparr>next_id := Suc (next_id w')\<rparr>))))"

definition put_slots :: "slot list \<Rightarrow> world \<Rightarrow> world" where
  "put_slots rs w = w\<lparr>slots := rs\<rparr>"

definition put_appointments :: "appointment list \<Rightarrow> world \<Rightarrow> world" where
  "put_appointments rs w = w\<lparr>appointments := rs\<rparr>"

definition put_patients :: "patient list \<Rightarrow> world \<Rightarrow> world" where
  "put_patients rs w = w\<lparr>patients := rs\<rparr>"

subsection \<open>Retries\<close>

text \<open>
  \<^verbatim>\<open>retry_with_backoff\<close>: up to \<^verbatim>\<open>MAX_RETRIES\<close> attempts; an exception of the last
  attempt is raised again, an earlier one is followed by a sleep and the next attempt.
\<close>

definition MAX_RETRIES :: nat where
  "MAX_RETRIES = 3"

fun retry_loop :: "nat \<Rightarrow> (world \<Rightarrow> (exn + 'a) \<times> world) \<Rightarrow> world \<Rightarrow> (exn + 'a) \<times> world" where
  "retry_loop 0 f w = (Inl MaxRetries, w)"
| "retry_loop (Suc n) f w =
     (case f w of
        (Inr v, w') \<Rightarrow> (Inr v, w')
      | (Inl e, w') \<Rightarrow> (if n = 0 then (Inl e, w') else retry_loop n f w'))"

definition retry_with_backoff :: "(world \<Rightarrow> (exn + 'a) \<times> world) \<Rightarrow> world \<Rightarrow> (exn + 'a) \<times> world" where
  "retry_with_backoff f w = retry_loop MAX_RETRIES f w"

definition execute_with_retry :: "(world \<Rightarrow> (exn + 'a) \<times> world) \<Rightarrow> world \<Rightarrow> (exn + 'a) \<times> world" where
  "execute_with_retry f w = retry_with_backoff f w"

subsection \<open>Booking and cancelling\<close>

text \<open>
  \<^verbatim>\<open>book_slot\<close>: the conditional update of the slot, the insert of the appointment, and
  the update that frees the slot again when the insert returned no row. The whole body
  is inside one \<^verbatim>\<open>try\<close> whose handler returns \<^verbatim>\<open>None\<close>.
\<close>

definition book_slot :: "nat \<Rightarrow> nat \<Rightarrow> world \<Rightarrow> appointment option \<times> world" where
  "book_slot sid pid w =
     (if \<not> client_ok w then (None, w)
      else
        (case update_rows slots put_slots (\<lambda>r. slot_id r = sid \<and> \<not> is_booked r)
                (\<lambda>r. r\<lparr>is_booked := True\<rparr>) w of
           (Inl e, w1) \<Rightarrow> (None, w1)
         | (Inr [], w1) \<Rightarrow> (None, w1)
         | (Inr (s # rest), w1) \<Rightarrow>
             (case insert_row appointments put_appointments
                     (\<lambda>i. \<lparr>appt_id = i, appt_patient_id = pid, availability_id = sid,
                            appointment_time = slot_start_time s, status = Confirmed\<rparr>) w1 of
                (Inl e, w2) \<Rightarrow> (None, w2)
              | (Inr (a # others), w2) \<Rightarrow> (Some a, w2)
              | (Inr [], w2) \<Rightarrow>
                  (case update_rows slots put_slots (\<lambda>r. slot_id r = sid)
                          (\<lambda>r. r\<lparr>is_booked := False\<rparr>) w2 of
                     (res, w3) \<Rightarrow> (None, w3)))))"

text \<open>
  \<^verbatim>\<open>cancel_appointment\<close>: the inner operation runs under \<^verbatim>\<open>execute_with_retry\<close>; the
  slot is freed only under \<^verbatim>\<open>if availability_id:\<close>, that is when an identifier is given
  and Python takes it as true. Identifiers are numbers here, of which \<open>0\<close> is the one
  taken as false.
\<close>

definition cancel_operation :: "nat \<Rightarrow> nat option \<Rightarrow> world \<Rightarrow> (exn + bool) \<times> world" where
  "cancel_operation aid avail w =
     (if \<not> client_ok w then (Inr False, w)
      else
        (case update_rows appointments put_appointments (\<lambda>a. appt_id a = aid)
                (\<lambda>a. a\<lparr>status := Cancelled\<rparr>) w of
           (Inl e, w1) \<Rightarrow> (Inl e, w1)
         | (Inr [], w1) \<Rightarrow> (Inr False, w1)
         | (Inr (a # rest), w1) \<Rightarrow>
             (case avail of
                None \<Rightarrow> (Inr True, w1)
              | Some sid \<Rightarrow>
                  (if sid = 0 then (Inr True, w1)
                   else
                     (case update_rows slots put_slots (\<lambda>r. slot_id r = sid)
                             (\<lambda>r. r\<lparr>is_booked := False\<rparr>) w1 of
                        (Inl e, w2) \<Rightarrow> (Inl e, w2)
                      | (Inr rows, w2) \<Rightarrow> (Inr True, w2))))))"

definition cancel_appointment :: "nat \<Rightarrow> nat option \<Rightarrow> world \<Rightarrow> bool \<times> world" where
  "cancel_appointment aid avail w =
     (case execute_with_retry (cancel_operation aid avail) w of
        (Inr b, w') \<Rightarrow> (b, w')
      | (Inl e, w') \<Rightarrow> (False, w'))"

text \<open>
  \<^verbatim>\<open>find_or_create_availability_slot\<close>: the row at exactly the start instant decides when
  there is one (the first the store returns); otherwise the booked rows overlapping
  the window block the creation of a new free row.
\<close>

definition find_or_create_operation :: "int \<Rightarrow> int \<Rightarrow> world \<Rightarrow> (exn + slot option) \<times> world" where
  "find_or_create_operation start_time end_time w =
     (if \<not> client_ok w then (Inr None, w)
      else
        (case select_rows slots (\<lambda>r. slot_start_time r = start_time) w of
           (Inl e, w1) \<Rightarrow> (Inl e, w1)
         | (Inr (existing # rest), w1) \<Rightarrow>
             (if is_booked existing then (Inr None, w1) else (Inr (Some existing), w1))
         | (Inr [], w1) \<Rightarrow>
             (case select_rows slots
                     (\<lambda>r. slot_start_time r < end_time \<and> slot_end_time r > start_time
                          \<and> is_booked r) w1 of
                (Inl e, w2) \<Rightarrow> (Inl e, w2)
              | (Inr (x # xs), w2) \<Rightarrow> (Inr None, w2)
              | (Inr [], w2) \<Rightarrow>
                  (case insert_row slots put_slots
                          (\<lambda>i. \<lparr>slot_id = i, slot_start_time = start_time,
                                 slot_end_time = end_time, is_booked = False\<rparr>) w2 of
                     (Inl e, w3) \<Rightarrow> (Inl e, w3)
                   | (Inr (new_slot # others), w3) \<Rightarrow> (Inr (Some new_slot), w3)
                   | (Inr [], w3) \<Rightarrow> (Inr None, w3)))))"

definition find_or_create_availability_slot :: "int \<Rightarrow> int \<Rightarrow> world \<Rightarrow> slot option \<times> world" where
  "find_or_create_availability_slot start_time end_time w =
     (case retry_with_backoff (find_or_create_operation start_time end_time) w of
        (Inr r, w') \<Rightarrow> (r, w')
      | (Inl e, w') \<Rightarrow> (None, w'))"

text \<open>A store that answers: the client exists and no pending outcome is a failure.\<close>

definition responsive :: "world \<Rightarrow> bool" where
  "responsive w \<longleftrightarrow> client_ok w \<and> list_all (\<lambda>x. x = Done) (pending w)"

definition pop :: "world \<Rightarrow> world" where
  "pop w = w\<lparr>pending := tl (pending w)\<rparr>"

text \<open>What the two updates of \<^verbatim>\<open>cancel_appointment\<close> write.\<close>

definition cancel_rows :: "nat \<Rightarrow> appointment list \<Rightarrow> appointment list" where
  "cancel_rows aid as = map (\<lambda>a. if appt_id a = aid then a\<lparr>status := Cancelled\<rparr> else a) as"

definition reserve_rows :: "nat \<Rightarrow> slot list \<Rightarrow> slot list" where
  "reserve_rows sid ss =
     map (\<lambda>r. if slot_id r = sid \<and> \<not> is_booked r then r\<lparr>is_booked := True\<rparr> else r) ss"

definition free_rows :: "nat \<Rightarrow> slot list \<Rightarrow> slot list" where
  "free_rows sid ss = map (\<lambda>r. if slot_id r = sid then r\<lparr>is_booked := False\<rparr> else r) ss"

text \<open>The row \<^verbatim>\<open>find_or_create_availability_slot\<close> inserts.\<close>

definition new_slot :: "nat \<Rightarrow> int \<Rightarrow> int \<Rightarrow> slot" where
  "new_slot i s e = \<lparr>slot_id = i, slot_start_time = s, slot_end_time = e, is_booked = False\<rparr>"

subsection \<open>Example stores\<close>

definition free_slot :: slot where
  "free_slot = \<lparr>slot_id = 1, slot_start_time = 100, slot_end_time = 130, is_booked = False\<rparr>"

definition taken_slot :: slot where
  "taken_slot = \<lparr>slot_id = 1, slot_start_time = 100, slot_end_time = 130, is_booked = True\<rparr>"

definition store_of :: "outcome list \<Rightarrow> slot list \<Rightarrow> appointment list \<Rightarrow> world" where
  "store_of os ss as =
     \<lparr>client_ok = True, pending = os, next_id = 10, patients = [], slots = ss,
      appointments = as\<rparr>"

definition booked_appt :: appointment where
  "booked_appt = \<lparr>appt_id = 5, appt_patient_id = 7, availability_id = 1,
      appointment_time = 100, status = Confirmed\<rparr>"

definition free_twin :: slot where
  "free_twin = \<lparr>slot_id = 3, slot_start_time = 100, slot_end_time = 130, is_booked = False\<rparr>"

definition overlapping_slot :: slot where
  "overlapping_slot = \<lparr>slot_id = 2, slot_start_time = 90, slot_end_time = 120, is_booked = True\<rparr>"

section \<open>Text and numbers\<close>

text \<open>
  Message texts are ASCII strings. The predicates and functions below are the methods of
  Python's \<^verbatim>\<open>str\<close> that the handlers call, on such strings.
\<close>

definition isspace :: "char \<Rightarrow> bool" where
  "isspace c \<longleftrightarrow> (let n = (of_char c :: nat) in (9 \<le> n \<and> n \<le> 13) \<or> (28 \<le> n \<and> n \<le> 32))"









text \<open>\<^verbatim>\<open>s.split()\<close>: the maximal runs of characters that are not white space.\<close>

fun split_from :: "string \<Rightarrow> string \<Rightarrow> string list" where
  "split_from cur [] = (if cur = [] then [] else [cur])"
| "split_from cur (c # cs) =
     (if isspace c then (if cur = [] then split_from [] cs else cur # split_from [] cs)
      else split_from (cur @ [c]) cs)"

definition split :: "string \<Rightarrow> string list" where
  "split s = split_from [] s"

text \<open>\<^verbatim>\<open>s.replace(old, new)\<close> for a non-empty \<^verbatim>\<open>old\<close>.\<close>

fun replace :: "string \<Rightarrow> string \<Rightarrow> string \<Rightarrow> string" where
  "replace old new [] = []"
| "replace old new (c # cs) =
     (if old \<noteq> [] \<and> take (length old) (c # cs) = old
      then new @ replace old new (drop (length old - 1) cs)
      else c # replace old new cs)"






section \<open>The booking context\<close>

text \<open>
  The values of \<^verbatim>\<open>json.loads\<close>. The parser is the library's: it is a parameter, which
  returns the value or raises.
\<close>

datatype json = JNull | JBool bool | JInt int | JStr string | JList "json list"
  | JObj "(string \<times> json) list"


section \<open>The patients table\<close>














section \<open>The webhook\<close>

text \<open>
  The replies of the webhook, one constructor for each text of \<^verbatim>\<open>main.py\<close>, with the
  values the text is formatted with. A response holds the messages added to it: at most
  one, and none for the empty \<^verbatim>\<open>MessagingResponse\<close>.
\<close>

datatype reply =
    SystemDifficulties
  | Welcome
  | InvalidName
  | ThanksHowOld string
  | AskSex
  | InvalidAge
  | AskEmail
  | InvalidSex
  | ProfileComplete
  | InvalidEmail
  | StartOver
  | CancelDone
  | CancelError
  | NotValidNumber
  | NumberOnlyCancel
  | NumberOnlyReschedule
  | ChooseMonthAgain json
  | MonthSelected json
  | InvalidMonthNumber
  | NumberOnlyMonth
  | AskTime
  | InvalidDate
  | TimeNotUnderstood
  | OutsideHours
  | InPast
  | BookingConfirmed int "string option"
  | JustBooked
  | SlotTaken int
  | ChooseMonth json
  | NoneToCancel
  | ChooseCancel "appointment list"
  | NoneToReschedule
  | ChooseReschedule "appointment list"
  | HelloName string
  | NotUnderstood
  | SystemError


subsection \<open>Example patients\<close>


definition other_patient :: patient where
  "other_patient =
     \<lparr>pat_id = 8, phone_number = ''+15550101'', full_name = Some ''Ann Lee'', age = Some 41,
      gender = Some ''Female'', email = Some ''ann@x.org'', pat_notes = None,
      onboarding_step = Some ''start'', onboarding_completed = True\<rparr>"



section \<open>Properties of the store operations\<close>

lemma pop_fields [simp]:
  "client_ok (pop w) = client_ok w" "next_id (pop w) = next_id w"
  "patients (pop w) = patients w" "slots (pop w) = slots w"
  "appointments (pop w) = appointments w" "pending (pop w) = tl (pending w)"
  by (simp_all add: pop_def)

lemma next_outcome_responsive:
  "responsive w \<Longrightarrow> next_outcome w = (Done, pop w)"
  by (cases "pending w") (auto simp: responsive_def next_outcome_def pop_def)

lemma responsive_pop: "responsive w \<Longrightarrow> responsive (pop w)"
  by (cases "pending w") (auto simp: responsive_def pop_def)

lemma next_outcome_tables:
  "next_outcome w = (x, w') \<Longrightarrow>
     slots w' = slots w \<and> appointments w' = appointments w \<and> patients w' = patients w
     \<and> client_ok w' = client_ok w \<and> next_id w' = next_id w \<and> pending w' = tl (pending w)"
  by (cases "pending w") (auto simp: next_outcome_def)

lemma retry_first_ok:
  "f w = (Inr v, w') \<Longrightarrow> retry_with_backoff f w = (Inr v, w')"
  by (simp add: retry_with_backoff_def MAX_RETRIES_def numeral_3_eq_3)

lemma map_if_none: "\<forall>r\<in>set rs. \<not> P r \<Longrightarrow> map (\<lambda>r. if P r then f r else r) rs = rs"
  by (induction rs) auto

subsection \<open>Booking\<close>

text \<open>
  C1. The claim: whenever the reservation succeeds and the appointment insert then fails,
  the slot is released before \<open>book_slot\<close> returns, so no booked slot is left without an
  appointment. On the code this fails when the insert fails by raising: the handler of
  the enclosing \<^verbatim>\<open>try\<close> returns \<^verbatim>\<open>None\<close> and the releasing update is never issued. Here
  the store holds one free slot, the reservation runs and the insert raises: the call
  returns \<open>None\<close>, the slot stays booked and there is no appointment.
\<close>

theorem book_slot_insert_raises_leaves_slot_booked:
  "fst (book_slot 1 7 (store_of [Done, Raise] [free_slot] [])) = None
   \<and> slots (snd (book_slot 1 7 (store_of [Done, Raise] [free_slot] []))) = [taken_slot]
   \<and> appointments (snd (book_slot 1 7 (store_of [Done, Raise] [free_slot] []))) = []"
  by (simp add: book_slot_def store_of_def free_slot_def taken_slot_def update_rows_def
      insert_row_def next_outcome_def put_slots_def)

lemma book_slot_on_booked:
  assumes "\<forall>r\<in>set (slots w). slot_id r = sid \<longrightarrow> is_booked r"
  shows "fst (book_slot sid pid w) = None
     \<and> appointments (snd (book_slot sid pid w)) = appointments w
     \<and> slots (snd (book_slot sid pid w)) = slots w
     \<and> patients (snd (book_slot sid pid w)) = patients w
     \<and> (client_ok w \<longrightarrow> pending (snd (book_slot sid pid w)) = tl (pending w))"
proof (cases "client_ok w")
  case False
  then show ?thesis by (simp add: book_slot_def)
next
  case True
  obtain x w' where nx: "next_outcome w = (x, w')" by (cases "next_outcome w")
  note tb = next_outcome_tables [OF nx]
  have none: "\<forall>r\<in>set (slots w'). \<not> (slot_id r = sid \<and> \<not> is_booked r)"
    using assms tb by auto
  have flt: "filter (\<lambda>r. slot_id r = sid \<and> \<not> is_booked r) (slots w') = []"
    using none by (simp add: filter_empty_conv)
  have mp: "map (\<lambda>r. if slot_id r = sid \<and> \<not> is_booked r then r\<lparr>is_booked := True\<rparr> else r)
              (slots w') = slots w'"
    using none by (rule map_if_none)
  show ?thesis
    using True nx tb flt mp
    by (cases x) (simp_all add: book_slot_def update_rows_def put_slots_def)
qed

lemma book_slot_first_statement_writes:
  assumes "client_ok w" and "pending w = Done # Raise # ps"
  shows "fst (book_slot sid pid w) = None
     \<and> slots (snd (book_slot sid pid w)) = reserve_rows sid (slots w)
     \<and> appointments (snd (book_slot sid pid w)) = appointments w"
proof -
  let ?w0 = "w\<lparr>pending := Raise # ps\<rparr>"
  let ?w1 = "put_slots (reserve_rows sid (slots w)) ?w0"
  have n1: "next_outcome w = (Done, ?w0)"
    using assms(2) by (simp add: next_outcome_def)
  have u1: "update_rows slots put_slots (\<lambda>r. slot_id r = sid \<and> \<not> is_booked r)
              (\<lambda>r. r\<lparr>is_booked := True\<rparr>) w
            = (Inr (map (\<lambda>r. r\<lparr>is_booked := True\<rparr>)
                 (filter (\<lambda>r. slot_id r = sid \<and> \<not> is_booked r) (slots w))), ?w1)"
    by (simp add: update_rows_def n1 reserve_rows_def)
  have n2: "next_outcome ?w1 = (Raise, ?w1\<lparr>pending := ps\<rparr>)"
    by (simp add: next_outcome_def put_slots_def)
  have i2: "insert_row appointments put_appointments mk ?w1 = (Inl StoreError, ?w1\<lparr>pending := ps\<rparr>)"
    for mk :: "nat \<Rightarrow> appointment"
    by (simp add: insert_row_def n2)
  have s1: "slots ?w1 = reserve_rows sid (slots w)" "appointments ?w1 = appointments w"
    by (simp_all add: put_slots_def)
  show ?thesis
  proof (cases "map (\<lambda>r. r\<lparr>is_booked := True\<rparr>)
                 (filter (\<lambda>r. slot_id r = sid \<and> \<not> is_booked r) (slots w))")
    case Nil
    then have "book_slot sid pid w = (None, ?w1)"
      using assms(1) u1 by (simp add: book_slot_def)
    then show ?thesis using s1 by simp
  next
    case (Cons s rest)
    then have "book_slot sid pid w = (None, ?w1\<lparr>pending := ps\<rparr>)"
      using assms(1) u1 i2 by (simp add: book_slot_def)
    then show ?thesis using s1 by simp
  qed
qed

text \<open>
  C2. Booking a slot that is already booked: the conditional update matches no row, so
  \<open>book_slot\<close> returns \<open>None\<close> and leaves every table as it was, whatever the store
  answers; in particular no appointment row is created. The predicate is part of the
  write: the first statement alone has already flipped exactly the free rows with that
  id, which shows when the statement after it raises; there is no read before it.
\<close>

theorem book_slot_taken:
  "((\<forall>r\<in>set (slots w). slot_id r = sid \<longrightarrow> is_booked r) \<longrightarrow>
      fst (book_slot sid pid w) = None
      \<and> appointments (snd (book_slot sid pid w)) = appointments w
      \<and> slots (snd (book_slot sid pid w)) = slots w
      \<and> patients (snd (book_slot sid pid w)) = patients w
      \<and> (client_ok w \<longrightarrow> pending (snd (book_slot sid pid w)) = tl (pending w)))
   \<and> (client_ok w \<and> pending w = Done # Raise # ps \<longrightarrow>
      fst (book_slot sid pid w) = None
      \<and> slots (snd (book_slot sid pid w)) =
          map (\<lambda>r. if slot_id r = sid \<and> \<not> is_booked r then r\<lparr>is_booked := True\<rparr> else r)
            (slots w)
      \<and> appointments (snd (book_slot sid pid w)) = appointments w)"
proof -
  have p1: "(\<forall>r\<in>set (slots w). slot_id r = sid \<longrightarrow> is_booked r) \<longrightarrow>
      fst (book_slot sid pid w) = None
      \<and> appointments (snd (book_slot sid pid w)) = appointments w
      \<and> slots (snd (book_slot sid pid w)) = slots w
      \<and> patients (snd (book_slot sid pid w)) = patients w
      \<and> (client_ok w \<longrightarrow> pending (snd (book_slot sid pid w)) = tl (pending w))"
    using book_slot_on_booked [of w sid pid] by blast
  have p2: "client_ok w \<and> pending w = Done # Raise # ps \<longrightarrow>
      fst (book_slot sid pid w) = None
      \<and> slots (snd (book_slot sid pid w)) =
          map (\<lambda>r. if slot_id r = sid \<and> \<not> is_booked r then r\<lparr>is_booked := True\<rparr> else r)
            (slots w)
      \<and> appointments (snd (book_slot sid pid w)) = appointments w"
    using book_slot_first_statement_writes [of w ps sid pid]
    unfolding reserve_rows_def by blast
  show ?thesis using p1 p2 by (intro conjI)
qed

theorem book_slot_taken_witness:
  "is_booked taken_slot
   \<and> fst (book_slot 1 7 (store_of [Done, Done] [taken_slot] [])) = None
   \<and> appointments (snd (book_slot 1 7 (store_of [Done, Done] [taken_slot] []))) = []
   \<and> slots (snd (book_slot 1 7 (store_of [Done, Done] [taken_slot] []))) = [taken_slot]
   \<and> pending (snd (book_slot 1 7 (store_of [Done, Done] [taken_slot] []))) = [Done]
   \<and> slots (snd (book_slot 1 7 (store_of [Done, Raise] [free_slot] []))) = [taken_slot]
   \<and> slots (snd (book_slot 1 7 (store_of [Done, Raise] [taken_slot] []))) = [taken_slot]"
  using book_slot_taken [of "store_of [Done, Done] [taken_slot] []" 1 7 "[]"]
    book_slot_taken [of "store_of [Done, Raise] [free_slot] []" 1 7 "[]"]
    book_slot_taken [of "store_of [Done, Raise] [taken_slot] []" 1 7 "[]"]
  by (simp add: store_of_def taken_slot_def free_slot_def)

subsection \<open>Statements on a store that answers\<close>

lemma update_rows_responsive:
  "responsive w \<Longrightarrow>
   update_rows tbl put P f w =
     (Inr (map f (filter P (tbl (pop w)))), put (map (\<lambda>r. if P r then f r else r) (tbl (pop w))) (pop w))"
  by (simp add: update_rows_def next_outcome_responsive)

lemma select_rows_responsive:
  "responsive w \<Longrightarrow> select_rows tbl P w = (Inr (filter P (tbl (pop w))), pop w)"
  by (simp add: select_rows_def next_outcome_responsive)

lemma insert_row_responsive:
  "responsive w \<Longrightarrow>
   insert_row tbl put mk w =
     (Inr [mk (next_id w)], put (tbl (pop w) @ [mk (next_id w)]) ((pop w)\<lparr>next_id := Suc (next_id w)\<rparr>))"
  by (simp add: insert_row_def next_outcome_responsive Let_def)

lemma responsive_put [simp]:
  "responsive (put_slots ss w) = responsive w"
  "responsive (put_appointments as w) = responsive w"
  "responsive (put_patients ps w) = responsive w"
  "responsive (w\<lparr>next_id := n\<rparr>) = responsive w"
  by (simp_all add: responsive_def put_slots_def put_appointments_def put_patients_def)

lemma put_fields [simp]:
  "slots (put_slots ss w) = ss" "appointments (put_slots ss w) = appointments w"
  "patients (put_slots ss w) = patients w"
  "slots (put_appointments as w) = slots w" "appointments (put_appointments as w) = as"
  "patients (put_appointments as w) = patients w"
  "slots (put_patients ps w) = slots w" "appointments (put_patients ps w) = appointments w"
  "patients (put_patients ps w) = ps"
  "client_ok (put_slots ss w) = client_ok w" "client_ok (put_appointments as w) = client_ok w"
  "client_ok (put_patients ps w) = client_ok w"
  "next_id (put_slots ss w) = next_id w" "next_id (put_appointments as w) = next_id w"
  "next_id (put_patients ps w) = next_id w"
  "pending (put_slots ss w) = pending w" "pending (put_appointments as w) = pending w"
  "pending (put_patients ps w) = pending w"
  by (simp_all add: put_slots_def put_appointments_def put_patients_def)

lemma cancel_operation_responsive:
  assumes "responsive w"
  shows "cancel_operation aid avail w =
     (if \<exists>a\<in>set (appointments w). appt_id a = aid
      then (Inr True,
            (case avail of None \<Rightarrow> put_appointments (cancel_rows aid (appointments w)) (pop w)
             | Some sid \<Rightarrow>
                 if sid = 0 then put_appointments (cancel_rows aid (appointments w)) (pop w)
                 else put_slots (free_rows sid (slots w))
                   (pop (put_appointments (cancel_rows aid (appointments w)) (pop w)))))
      else (Inr False, put_appointments (cancel_rows aid (appointments w)) (pop w)))"
proof -
  have cl: "client_ok w" using assms by (simp add: responsive_def)
  let ?w1 = "put_appointments (cancel_rows aid (appointments w)) (pop w)"
  have r1: "responsive ?w1" using assms by (simp add: responsive_pop)
  have u1: "update_rows appointments put_appointments (\<lambda>a. appt_id a = aid)
              (\<lambda>a. a\<lparr>status := Cancelled\<rparr>) w
            = (Inr (map (\<lambda>a. a\<lparr>status := Cancelled\<rparr>) (filter (\<lambda>a. appt_id a = aid) (appointments w))), ?w1)"
    using assms by (simp add: update_rows_responsive cancel_rows_def)
  show ?thesis
  proof (cases "\<exists>a\<in>set (appointments w). appt_id a = aid")
    case False
    then have "filter (\<lambda>a. appt_id a = aid) (appointments w) = []"
      by (simp add: filter_empty_conv)
    then show ?thesis using False cl u1 by (simp add: cancel_operation_def)
  next
    case True
    then have "filter (\<lambda>a. appt_id a = aid) (appointments w) \<noteq> []"
      by (simp add: filter_empty_conv)
    then obtain a rest where fl: "filter (\<lambda>a. appt_id a = aid) (appointments w) = a # rest"
      by (cases "filter (\<lambda>a. appt_id a = aid) (appointments w)") auto
    show ?thesis
    proof (cases avail)
      case None
      then show ?thesis using True cl u1 fl by (simp add: cancel_operation_def)
    next
      case (Some sid)
      show ?thesis
      proof (cases "sid = 0")
        case z: True
        show ?thesis using True cl u1 fl Some z by (simp add: cancel_operation_def)
      next
        case nz: False
        have u2: "update_rows slots put_slots (\<lambda>r. slot_id r = sid) (\<lambda>r. r\<lparr>is_booked := False\<rparr>) ?w1
           = (Inr (map (\<lambda>r. r\<lparr>is_booked := False\<rparr>) (filter (\<lambda>r. slot_id r = sid) (slots w))),
              put_slots (free_rows sid (slots w)) (pop ?w1))"
          using r1 by (simp add: update_rows_responsive free_rows_def)
        show ?thesis using True cl u1 fl Some u2 nz by (simp add: cancel_operation_def)
      qed
    qed
  qed
qed

lemma cancel_appointment_responsive:
  assumes "responsive w"
  shows "cancel_appointment aid avail w =
     (if \<exists>a\<in>set (appointments w). appt_id a = aid
      then (True,
            (case avail of None \<Rightarrow> put_appointments (cancel_rows aid (appointments w)) (pop w)
             | Some sid \<Rightarrow>
                 if sid = 0 then put_appointments (cancel_rows aid (appointments w)) (pop w)
                 else put_slots (free_rows sid (slots w))
                   (pop (put_appointments (cancel_rows aid (appointments w)) (pop w)))))
      else (False, put_appointments (cancel_rows aid (appointments w)) (pop w)))"
proof (cases "\<exists>a\<in>set (appointments w). appt_id a = aid")
  case True
  let ?W = "case avail of None \<Rightarrow> put_appointments (cancel_rows aid (appointments w)) (pop w)
             | Some sid \<Rightarrow>
                 if sid = 0 then put_appointments (cancel_rows aid (appointments w)) (pop w)
                 else put_slots (free_rows sid (slots w))
                   (pop (put_appointments (cancel_rows aid (appointments w)) (pop w)))"
  have op: "cancel_operation aid avail w = (Inr True, ?W)"
    using True by (simp add: cancel_operation_responsive [OF assms])
  have "retry_with_backoff (cancel_operation aid avail) w = (Inr True, ?W)"
    using op by (rule retry_first_ok)
  then show ?thesis
    using True by (simp add: cancel_appointment_def execute_with_retry_def)
next
  case False
  let ?W = "put_appointments (cancel_rows aid (appointments w)) (pop w)"
  have op: "cancel_operation aid avail w = (Inr False, ?W)"
    using False by (simp add: cancel_operation_responsive [OF assms])
  have "retry_with_backoff (cancel_operation aid avail) w = (Inr False, ?W)"
    using op by (rule retry_first_ok)
  then show ?thesis
    using False by (simp add: cancel_appointment_def execute_with_retry_def)
qed

lemma cancel_operation_no_match:
  assumes "\<not> (\<exists>a\<in>set (appointments w). appt_id a = aid)"
  shows "fst (cancel_operation aid avail w) \<noteq> Inr True
     \<and> appointments (snd (cancel_operation aid avail w)) = appointments w
     \<and> slots (snd (cancel_operation aid avail w)) = slots w"
proof (cases "client_ok w")
  case False
  then show ?thesis by (simp add: cancel_operation_def)
next
  case True
  obtain x w' where nx: "next_outcome w = (x, w')" by (cases "next_outcome w")
  note tb = next_outcome_tables [OF nx]
  have none: "\<forall>a\<in>set (appointments w'). \<not> appt_id a = aid"
    using assms tb by auto
  have flt: "filter (\<lambda>a. appt_id a = aid) (appointments w') = []"
    using none by (simp add: filter_empty_conv)
  have mp: "map (\<lambda>a. if appt_id a = aid then a\<lparr>status := Cancelled\<rparr> else a)
              (appointments w') = appointments w'"
    using none by (rule map_if_none)
  show ?thesis
    using True nx tb flt mp
    by (cases x) (simp_all add: cancel_operation_def update_rows_def put_appointments_def)
qed

lemma retry_loop_no_match:
  assumes "\<not> (\<exists>a\<in>set (appointments w). appt_id a = aid)"
  shows "fst (retry_loop n (cancel_operation aid avail) w) \<noteq> Inr True
     \<and> appointments (snd (retry_loop n (cancel_operation aid avail) w)) = appointments w
     \<and> slots (snd (retry_loop n (cancel_operation aid avail) w)) = slots w"
  using assms
proof (induction n arbitrary: w)
  case 0
  show ?case by simp
next
  case (Suc n)
  obtain r w' where op: "cancel_operation aid avail w = (r, w')"
    by (cases "cancel_operation aid avail w")
  from cancel_operation_no_match [OF Suc.prems, of avail] op
  have r: "r \<noteq> Inr True" and a: "appointments w' = appointments w" and s: "slots w' = slots w"
    by simp_all
  have nm: "\<not> (\<exists>a\<in>set (appointments w'). appt_id a = aid)"
    using Suc.prems a by simp
  show ?case
  proof (cases r)
    case (Inr v)
    then show ?thesis using op r a s by simp
  next
    case (Inl e)
    show ?thesis
    proof (cases "n = 0")
      case True
      then show ?thesis using op Inl a s by simp
    next
      case False
      then show ?thesis using op Inl a s Suc.IH [OF nm] by simp
    qed
  qed
qed

lemma cancel_appointment_no_match:
  assumes "\<not> (\<exists>a\<in>set (appointments w). appt_id a = aid)"
  shows "\<not> fst (cancel_appointment aid avail w)
     \<and> appointments (snd (cancel_appointment aid avail w)) = appointments w
     \<and> slots (snd (cancel_appointment aid avail w)) = slots w"
proof -
  obtain r w' where rt: "retry_loop MAX_RETRIES (cancel_operation aid avail) w = (r, w')"
    by (cases "retry_loop MAX_RETRIES (cancel_operation aid avail) w")
  from retry_loop_no_match [OF assms, of MAX_RETRIES avail] rt
  have r: "r \<noteq> Inr True" and a: "appointments w' = appointments w" and s: "slots w' = slots w"
    by simp_all
  show ?thesis
  proof (cases r)
    case (Inl e)
    then show ?thesis using rt a s
      by (simp add: cancel_appointment_def execute_with_retry_def retry_with_backoff_def)
  next
    case (Inr v)
    then show ?thesis using rt r a s
      by (simp add: cancel_appointment_def execute_with_retry_def retry_with_backoff_def)
  qed
qed

lemma cancel_appointment_slot_no_rows:
  assumes "client_ok w" and "pending w = Done # NoRows # ps"
    and "\<exists>a\<in>set (appointments w). appt_id a = aid"
  shows "fst (cancel_appointment aid avail w)
     \<and> appointments (snd (cancel_appointment aid avail w)) = cancel_rows aid (appointments w)
     \<and> slots (snd (cancel_appointment aid avail w)) = slots w"
proof -
  let ?w0 = "w\<lparr>pending := NoRows # ps\<rparr>"
  let ?w1 = "put_appointments (cancel_rows aid (appointments w)) ?w0"
  have n1: "next_outcome w = (Done, ?w0)"
    using assms(2) by (simp add: next_outcome_def)
  have u1: "update_rows appointments put_appointments (\<lambda>a. appt_id a = aid)
              (\<lambda>a. a\<lparr>status := Cancelled\<rparr>) w
            = (Inr (map (\<lambda>a. a\<lparr>status := Cancelled\<rparr>) (filter (\<lambda>a. appt_id a = aid) (appointments w))), ?w1)"
    by (simp add: update_rows_def n1 cancel_rows_def)
  have n2: "next_outcome ?w1 = (NoRows, ?w1\<lparr>pending := ps\<rparr>)"
    by (simp add: next_outcome_def put_appointments_def)
  have u2: "update_rows slots put_slots P f ?w1 = (Inr [], ?w1\<lparr>pending := ps\<rparr>)"
    for P :: "slot \<Rightarrow> bool" and f
    by (simp add: update_rows_def n2)
  have t1: "appointments ?w1 = cancel_rows aid (appointments w)" "slots ?w1 = slots w"
    by (simp_all add: put_appointments_def)
  from assms(3) have "filter (\<lambda>a. appt_id a = aid) (appointments w) \<noteq> []"
    by (simp add: filter_empty_conv)
  then obtain a rest where fl: "filter (\<lambda>a. appt_id a = aid) (appointments w) = a # rest"
    by (cases "filter (\<lambda>a. appt_id a = aid) (appointments w)") auto
  have "\<exists>W. cancel_operation aid avail w = (Inr True, W)
          \<and> appointments W = cancel_rows aid (appointments w) \<and> slots W = slots w"
  proof (cases avail)
    case None
    then have "cancel_operation aid avail w = (Inr True, ?w1)"
      using assms(1) u1 fl by (simp add: cancel_operation_def)
    then show ?thesis using t1 by simp
  next
    case (Some sid)
    show ?thesis
    proof (cases "sid = 0")
      case True
      then have "cancel_operation aid avail w = (Inr True, ?w1)"
        using assms(1) u1 fl Some by (simp add: cancel_operation_def)
      then show ?thesis using t1 by simp
    next
      case False
      then have "cancel_operation aid avail w = (Inr True, ?w1\<lparr>pending := ps\<rparr>)"
        using assms(1) u1 u2 fl Some by (simp add: cancel_operation_def)
      then show ?thesis using t1 by simp
    qed
  qed
  then obtain W where op: "cancel_operation aid avail w = (Inr True, W)"
    and tw: "appointments W = cancel_rows aid (appointments w)" "slots W = slots w"
    by blast
  have "retry_with_backoff (cancel_operation aid avail) w = (Inr True, W)"
    using op by (rule retry_first_ok)
  then have "cancel_appointment aid avail w = (True, W)"
    by (simp add: cancel_appointment_def execute_with_retry_def)
  then show ?thesis using tw by simp
qed

lemma cancel_rows_idem: "cancel_rows aid (cancel_rows aid rows) = cancel_rows aid rows"
  by (simp add: cancel_rows_def)

lemma free_rows_idem: "free_rows sid (free_rows sid rows) = free_rows sid rows"
  by (simp add: free_rows_def)

lemma cancel_rows_ids:
  "(\<exists>a\<in>set (cancel_rows aid rows). appt_id a = aid) = (\<exists>a\<in>set rows. appt_id a = aid)"
  by (induction rows) (simp_all add: cancel_rows_def)

lemma cancel_rows_status:
  assumes "a \<in> set (cancel_rows aid rows)" and "appt_id a = aid"
  shows "status a = Cancelled"
proof -
  from assms(1) obtain x where x: "x \<in> set rows"
      "a = (if appt_id x = aid then x\<lparr>status := Cancelled\<rparr> else x)"
    unfolding cancel_rows_def set_map by blast
  show ?thesis
  proof (cases "appt_id x = aid")
    case True
    then show ?thesis using x by simp
  next
    case False
    then show ?thesis using x assms(2) by simp
  qed
qed

lemma free_rows_free:
  assumes "r \<in> set (free_rows sid rows)" and "slot_id r = sid"
  shows "\<not> is_booked r"
proof -
  from assms(1) obtain x where x: "x \<in> set rows"
      "r = (if slot_id x = sid then x\<lparr>is_booked := False\<rparr> else x)"
    unfolding free_rows_def set_map by blast
  show ?thesis
  proof (cases "slot_id x = sid")
    case True
    then show ?thesis using x by simp
  next
    case False
    then show ?thesis using x assms(2) by simp
  qed
qed

lemma cancel_appointment_twice:
  assumes "responsive w" and "sid \<noteq> 0" and ex: "\<exists>a\<in>set (appointments w). appt_id a = aid"
  shows "let w1 = snd (cancel_appointment aid (Some sid) w);
             w2 = snd (cancel_appointment aid (Some sid) w1)
         in fst (cancel_appointment aid (Some sid) w)
            \<and> fst (cancel_appointment aid (Some sid) w1)
            \<and> appointments w2 = appointments w1 \<and> slots w2 = slots w1
            \<and> (\<forall>a\<in>set (appointments w2). appt_id a = aid \<longrightarrow> status a = Cancelled)
            \<and> (\<forall>r\<in>set (slots w2). slot_id r = sid \<longrightarrow> \<not> is_booked r)"
proof -
  define w1 where "w1 = put_slots (free_rows sid (slots w))
               (pop (put_appointments (cancel_rows aid (appointments w)) (pop w)))"
  define w2 where "w2 = put_slots (free_rows sid (slots w1))
               (pop (put_appointments (cancel_rows aid (appointments w1)) (pop w1)))"
  have c1: "cancel_appointment aid (Some sid) w = (True, w1)"
    using ex assms(2) by (simp add: cancel_appointment_responsive [OF assms(1)] w1_def)
  have r1: "responsive w1" using assms(1) by (simp add: responsive_pop w1_def)
  have a1: "appointments w1 = cancel_rows aid (appointments w)" by (simp add: w1_def)
  have s1: "slots w1 = free_rows sid (slots w)" by (simp add: w1_def)
  have ex1: "\<exists>a\<in>set (appointments w1). appt_id a = aid"
    using ex by (simp only: a1 cancel_rows_ids)
  have c2: "cancel_appointment aid (Some sid) w1 = (True, w2)"
    using ex1 assms(2) by (simp add: cancel_appointment_responsive [OF r1] w2_def)
  have a2: "appointments w2 = cancel_rows aid (appointments w)"
    by (simp add: w2_def a1 cancel_rows_idem)
  have s2: "slots w2 = free_rows sid (slots w)"
    by (simp add: w2_def s1 free_rows_idem)
  have st: "\<forall>a\<in>set (appointments w2). appt_id a = aid \<longrightarrow> status a = Cancelled"
    unfolding a2 using cancel_rows_status by blast
  have fr: "\<forall>r\<in>set (slots w2). slot_id r = sid \<longrightarrow> \<not> is_booked r"
    unfolding s2 using free_rows_free by blast
  show ?thesis
    unfolding Let_def c1 snd_conv fst_conv c2
    using st fr a1 a2 s1 s2 by (intro conjI) simp_all
qed

subsection \<open>Cancelling\<close>

text \<open>
  C3. The claim: cancelling is idempotent, only the case where no appointment row
  matches is a failure, and a failure to free the slot still yields success. On the
  code the last two clauses hold for a slot update that returns no row, not for one
  that raises: the exception leaves \<^verbatim>\<open>_cancel_operation\<close>, the operation is run again,
  and when the slot update raises on each of the three attempts \<open>cancel_appointment\<close>
  returns \<open>False\<close> although the appointment row matched. Here the appointment exists,
  every appointment update runs and every slot update raises: the call returns \<open>False\<close>,
  the appointment is cancelled and the slot is still booked.
\<close>

theorem cancel_appointment_slot_update_raises:
  "appt_id booked_appt = 5 \<and> slot_id taken_slot = 1
   \<and> \<not> fst (cancel_appointment 5 (Some 1)
        (store_of [Done, Raise, Done, Raise, Done, Raise] [taken_slot] [booked_appt]))
   \<and> map status (appointments (snd (cancel_appointment 5 (Some 1)
        (store_of [Done, Raise, Done, Raise, Done, Raise] [taken_slot] [booked_appt]))))
       = [Cancelled]
   \<and> slots (snd (cancel_appointment 5 (Some 1)
        (store_of [Done, Raise, Done, Raise, Done, Raise] [taken_slot] [booked_appt])))
       = [taken_slot]"
  by (simp add: store_of_def taken_slot_def booked_appt_def
      cancel_appointment_def execute_with_retry_def retry_with_backoff_def MAX_RETRIES_def
      numeral_3_eq_3 cancel_operation_def update_rows_def next_outcome_def put_slots_def
      put_appointments_def)

text \<open>
  C3, as the code has it. For every store, whatever it answers: when no appointment
  row has the id, \<open>cancel_appointment\<close> returns \<open>False\<close> and leaves appointments and slots
  as they were. When an appointment row matches and the slot update returns no row,
  the call still returns \<open>True\<close> and the appointment is cancelled. On a store that
  answers, the call returns \<open>True\<close> exactly when an appointment row has the id, whatever
  its status, and cancelling the same appointment with the same slot id a second time
  succeeds again and changes neither table: the appointment stays cancelled and the
  slot stays free. The slot is touched only for an identifier that Python takes as
  true, which for numbers is one other than \<open>0\<close>.
\<close>

theorem cancel_appointment_idempotent:
  "(\<not> (\<exists>a\<in>set (appointments w). appt_id a = aid) \<longrightarrow>
       \<not> fst (cancel_appointment aid avail w)
       \<and> appointments (snd (cancel_appointment aid avail w)) = appointments w
       \<and> slots (snd (cancel_appointment aid avail w)) = slots w)
   \<and> (client_ok w \<and> pending w = Done # NoRows # ps
        \<and> (\<exists>a\<in>set (appointments w). appt_id a = aid) \<longrightarrow>
       fst (cancel_appointment aid avail w)
       \<and> appointments (snd (cancel_appointment aid avail w)) = cancel_rows aid (appointments w)
       \<and> slots (snd (cancel_appointment aid avail w)) = slots w)
   \<and> (responsive w \<longrightarrow>
       (fst (cancel_appointment aid avail w) \<longleftrightarrow> (\<exists>a\<in>set (appointments w). appt_id a = aid)))
   \<and> (responsive w \<and> sid \<noteq> 0 \<and> (\<exists>a\<in>set (appointments w). appt_id a = aid) \<longrightarrow>
         (let w1 = snd (cancel_appointment aid (Some sid) w);
              w2 = snd (cancel_appointment aid (Some sid) w1)
          in fst (cancel_appointment aid (Some sid) w)
             \<and> fst (cancel_appointment aid (Some sid) w1)
             \<and> appointments w2 = appointments w1 \<and> slots w2 = slots w1
             \<and> (\<forall>a\<in>set (appointments w2). appt_id a = aid \<longrightarrow> status a = Cancelled)
             \<and> (\<forall>r\<in>set (slots w2). slot_id r = sid \<longrightarrow> \<not> is_booked r)))"
proof -
  have p1: "\<not> (\<exists>a\<in>set (appointments w). appt_id a = aid) \<longrightarrow>
       \<not> fst (cancel_appointment aid avail w)
       \<and> appointments (snd (cancel_appointment aid avail w)) = appointments w
       \<and> slots (snd (cancel_appointment aid avail w)) = slots w"
    using cancel_appointment_no_match [of w aid avail] by blast
  have p2: "client_ok w \<and> pending w = Done # NoRows # ps
        \<and> (\<exists>a\<in>set (appointments w). appt_id a = aid) \<longrightarrow>
       fst (cancel_appointment aid avail w)
       \<and> appointments (snd (cancel_appointment aid avail w)) = cancel_rows aid (appointments w)
       \<and> slots (snd (cancel_appointment aid avail w)) = slots w"
    using cancel_appointment_slot_no_rows [of w ps aid avail] by blast
  have p3: "responsive w \<longrightarrow>
       (fst (cancel_appointment aid avail w) \<longleftrightarrow> (\<exists>a\<in>set (appointments w). appt_id a = aid))"
    by (simp add: cancel_appointment_responsive)
  have p4: "responsive w \<and> sid \<noteq> 0 \<and> (\<exists>a\<in>set (appointments w). appt_id a = aid) \<longrightarrow>
         (let w1 = snd (cancel_appointment aid (Some sid) w);
              w2 = snd (cancel_appointment aid (Some sid) w1)
          in fst (cancel_appointment aid (Some sid) w)
             \<and> fst (cancel_appointment aid (Some sid) w1)
             \<and> appointments w2 = appointments w1 \<and> slots w2 = slots w1
             \<and> (\<forall>a\<in>set (appointments w2). appt_id a = aid \<longrightarrow> status a = Cancelled)
             \<and> (\<forall>r\<in>set (slots w2). slot_id r = sid \<longrightarrow> \<not> is_booked r))"
    using cancel_appointment_twice [of w sid aid] by blast
  show ?thesis using p1 p2 p3 p4 by (intro conjI)
qed

theorem cancel_appointment_idempotent_witness:
  "responsive (store_of [] [taken_slot] [booked_appt])
   \<and> fst (cancel_appointment 5 (Some 1) (store_of [] [taken_slot] [booked_appt]))
   \<and> fst (cancel_appointment 5 (Some 1)
        (snd (cancel_appointment 5 (Some 1) (store_of [] [taken_slot] [booked_appt]))))
   \<and> slots (snd (cancel_appointment 5 (Some 1)
        (snd (cancel_appointment 5 (Some 1) (store_of [] [taken_slot] [booked_appt])))))
       = [free_slot]
   \<and> map status (appointments (snd (cancel_appointment 5 (Some 1)
        (snd (cancel_appointment 5 (Some 1) (store_of [] [taken_slot] [booked_appt]))))))
       = [Cancelled]
   \<and> \<not> fst (cancel_appointment 6 (Some 1) (store_of [Raise, NoRows] [taken_slot] [booked_appt]))
   \<and> fst (cancel_appointment 5 (Some 1) (store_of [Done, NoRows] [taken_slot] [booked_appt]))
   \<and> slots (snd (cancel_appointment 5 (Some 1)
        (store_of [Done, NoRows] [taken_slot] [booked_appt]))) = [taken_slot]"
  using cancel_appointment_idempotent
      [of "store_of [] [taken_slot] [booked_appt]" 5 "Some 1" "[]" 1]
    cancel_appointment_idempotent
      [of "store_of [Raise, NoRows] [taken_slot] [booked_appt]" 6 "Some 1" "[]" 1]
    cancel_appointment_idempotent
      [of "store_of [Done, NoRows] [taken_slot] [booked_appt]" 5 "Some 1" "[]" 1]
  by (simp add: store_of_def taken_slot_def free_slot_def booked_appt_def responsive_def Let_def
      cancel_appointment_def execute_with_retry_def retry_with_backoff_def MAX_RETRIES_def
      numeral_3_eq_3 cancel_operation_def update_rows_def next_outcome_def put_slots_def
      put_appointments_def cancel_rows_def)

lemma find_or_create_operation_responsive:
  assumes "responsive w"
  shows "find_or_create_operation s e w =
    (case filter (\<lambda>r. slot_start_time r = s) (slots w) of
       x # xs \<Rightarrow> (Inr (if is_booked x then None else Some x), pop w)
     | [] \<Rightarrow>
        (if \<exists>r\<in>set (slots w). slot_start_time r < e \<and> slot_end_time r > s \<and> is_booked r
         then (Inr None, pop (pop w))
         else (Inr (Some (new_slot (next_id w) s e)),
               put_slots (slots w @ [new_slot (next_id w) s e])
                 ((pop (pop (pop w)))\<lparr>next_id := Suc (next_id w)\<rparr>))))"
proof -
  have cl: "client_ok w" using assms by (simp add: responsive_def)
  have r1: "responsive (pop w)" using assms by (rule responsive_pop)
  have r2: "responsive (pop (pop w))" using r1 by (rule responsive_pop)
  note s1 = select_rows_responsive [OF assms, of slots]
  note s2 = select_rows_responsive [OF r1, of slots]
  note i3 = insert_row_responsive [OF r2, of slots put_slots]
  show ?thesis
  proof (cases "filter (\<lambda>r. slot_start_time r = s) (slots w)")
    case (Cons x xs)
    then show ?thesis using cl s1 by (simp add: find_or_create_operation_def)
  next
    case Nil
    show ?thesis
    proof (cases "\<exists>r\<in>set (slots w). slot_start_time r < e \<and> slot_end_time r > s \<and> is_booked r")
      case True
      then have "filter (\<lambda>r. slot_start_time r < e \<and> slot_end_time r > s \<and> is_booked r) (slots w) \<noteq> []"
        by (auto simp: filter_empty_conv)
      then obtain y ys where
        "filter (\<lambda>r. slot_start_time r < e \<and> slot_end_time r > s \<and> is_booked r) (slots w) = y # ys"
        by (cases "filter (\<lambda>r. slot_start_time r < e \<and> slot_end_time r > s \<and> is_booked r) (slots w)") auto
      then show ?thesis using cl s1 s2 Nil True by (simp add: find_or_create_operation_def)
    next
      case False
      then have "filter (\<lambda>r. slot_start_time r < e \<and> slot_end_time r > s \<and> is_booked r) (slots w) = []"
        by (simp add: filter_empty_conv)
      then show ?thesis using cl s1 s2 i3 Nil False
        by (simp add: find_or_create_operation_def new_slot_def)
    qed
  qed
qed

lemma find_or_create_availability_slot_responsive:
  assumes "responsive w"
  shows "find_or_create_availability_slot s e w =
    (case filter (\<lambda>r. slot_start_time r = s) (slots w) of
       x # xs \<Rightarrow> (if is_booked x then None else Some x, pop w)
     | [] \<Rightarrow>
        (if \<exists>r\<in>set (slots w). slot_start_time r < e \<and> slot_end_time r > s \<and> is_booked r
         then (None, pop (pop w))
         else (Some (new_slot (next_id w) s e),
               put_slots (slots w @ [new_slot (next_id w) s e])
                 ((pop (pop (pop w)))\<lparr>next_id := Suc (next_id w)\<rparr>))))"
  (is "_ = ?R")
proof -
  have op: "find_or_create_operation s e w = (Inr (fst ?R), snd ?R)"
    by (auto simp add: find_or_create_operation_responsive [OF assms] split: list.split)
  have "retry_with_backoff (find_or_create_operation s e) w = (Inr (fst ?R), snd ?R)"
    using op by (rule retry_first_ok)
  then have "find_or_create_availability_slot s e w = (fst ?R, snd ?R)"
    by (simp add: find_or_create_availability_slot_def)
  then show ?thesis by simp
qed

subsection \<open>Finding or creating a slot\<close>

text \<open>
  C4. The claim: a free row at exactly the start instant is returned, a booked row at
  exactly the start instant gives \<open>None\<close>. The code looks at the first row the store
  returns for the start instant and at no other. Here two rows start at the same
  instant, one booked and one free: with the booked row first the result is \<open>None\<close>
  although a free row exists at the start, with the free row first that row is
  returned although a booked row exists at the start.
\<close>

theorem find_or_create_availability_slot_first_row_only:
  "slot_start_time taken_slot = 100 \<and> is_booked taken_slot
   \<and> slot_start_time free_twin = 100 \<and> \<not> is_booked free_twin
   \<and> fst (find_or_create_availability_slot 100 130 (store_of [] [taken_slot, free_twin] []))
       = None
   \<and> fst (find_or_create_availability_slot 100 130 (store_of [] [free_twin, taken_slot] []))
       = Some free_twin"
  by (simp add: store_of_def taken_slot_def free_twin_def
      find_or_create_availability_slot_def retry_with_backoff_def MAX_RETRIES_def
      numeral_3_eq_3 find_or_create_operation_def select_rows_def next_outcome_def)

text \<open>
  C4, as the code has it. On a store that answers, for every start and end: when rows
  exist at exactly the start instant, the first of them decides, it is returned when
  free and the result is \<open>None\<close> when it is booked, and the table is unchanged; when no
  row exists at the start, the result is \<open>None\<close> exactly when some booked row overlaps
  the window, and otherwise a new free row is appended and returned. Free rows never
  block: the table may hold free rows with overlapping windows.
\<close>

theorem find_or_create_availability_slot_cases:
  assumes "responsive w"
  shows "fst (find_or_create_availability_slot s e w) =
      (case filter (\<lambda>r. slot_start_time r = s) (slots w) of
         x # xs \<Rightarrow> (if is_booked x then None else Some x)
       | [] \<Rightarrow>
          (if \<exists>r\<in>set (slots w). slot_start_time r < e \<and> slot_end_time r > s \<and> is_booked r
           then None else Some (new_slot (next_id w) s e)))
    \<and> slots (snd (find_or_create_availability_slot s e w)) =
      (if (\<exists>r\<in>set (slots w). slot_start_time r = s)
          \<or> (\<exists>r\<in>set (slots w). slot_start_time r < e \<and> slot_end_time r > s \<and> is_booked r)
       then slots w else slots w @ [new_slot (next_id w) s e])
    \<and> appointments (snd (find_or_create_availability_slot s e w)) = appointments w"
proof (cases "filter (\<lambda>r. slot_start_time r = s) (slots w)")
  case (Cons x xs)
  then have "filter (\<lambda>r. slot_start_time r = s) (slots w) \<noteq> []" by simp
  then have ex: "\<exists>r\<in>set (slots w). slot_start_time r = s"
    by (simp add: filter_empty_conv)
  show ?thesis
    using Cons ex by (simp add: find_or_create_availability_slot_responsive [OF assms])
next
  case Nil
  then have nex: "\<not> (\<exists>r\<in>set (slots w). slot_start_time r = s)"
    by (simp add: filter_empty_conv)
  show ?thesis
    using Nil nex by (auto simp add: find_or_create_availability_slot_responsive [OF assms])
qed

theorem find_or_create_availability_slot_cases_witness:
  "responsive (store_of [] [free_slot] [])
   \<and> fst (find_or_create_availability_slot 100 130 (store_of [] [free_slot] [])) = Some free_slot
   \<and> fst (find_or_create_availability_slot 100 130 (store_of [] [taken_slot] [])) = None
   \<and> fst (find_or_create_availability_slot 110 140 (store_of [] [overlapping_slot] [])) = None
   \<and> fst (find_or_create_availability_slot 110 140 (store_of [] [free_slot] []))
       = Some (new_slot 10 110 140)
   \<and> slots (snd (find_or_create_availability_slot 110 140 (store_of [] [free_slot] [])))
       = [free_slot, new_slot 10 110 140]"
  using find_or_create_availability_slot_cases [of "store_of [] [free_slot] []" 100 130]
    find_or_create_availability_slot_cases [of "store_of [] [taken_slot] []" 100 130]
    find_or_create_availability_slot_cases [of "store_of [] [overlapping_slot] []" 110 140]
    find_or_create_availability_slot_cases [of "store_of [] [free_slot] []" 110 140]
  by (simp add: store_of_def free_slot_def taken_slot_def overlapping_slot_def new_slot_def
      responsive_def)

section \<open>Properties of the onboarding block\<close>





















subsection \<open>Onboarding\<close>




subsection \<open>The booking context\<close>



end
